theory Spec2Isabelle
  imports Complex_Main "HOL-Library.Log_Nat" "HOL-Library.Sublist"
begin

section \<open>The vision bridge (\<open>.mcp/vision-bridge/server.py\<close>)\<close>

text \<open>
  The bridge resolves a caller-supplied path against a workspace root, loads and
  downscales the image, posts it with a prompt to a chat backend and shapes the reply.
  The functions of \<open>server.py\<close> are embedded one by one, with their names. What they
  call outside the program (the file system, the image library, the HTTP client and the
  JSON decoder) is a record of functions, \<open>env\<close>: one value of it is one state of the
  outside world. Exceptions are values of \<open>exn\<close>, and a function that can raise returns
  \<open>exn + 'a\<close>.
\<close>

subsection \<open>Python strings\<close>

text \<open>
  A Python \<open>str\<close> is modelled by \<open>string\<close>: the bytes of its UTF-8 encoding. The
  separators the program looks for (\<open>/\<close> and \<open>.\<close>) are single bytes that occur in no
  longer encoding, so splitting and searching on bytes is splitting and searching on
  code points. \<open>str.lower\<close> is modelled on the ASCII letters; no character outside
  ASCII lowers to a letter of an allowed suffix. \<open>str.strip\<close> removes every code point
  that \<open>str.isspace\<close> accepts, in its one-, two- or three-byte encoding.
\<close>

definition lower_char :: "char \<Rightarrow> char" where
  "lower_char c =
     (let n = (of_char c :: nat)
      in if 65 \<le> n \<and> n \<le> 90 then char_of (n + 32) else c)"

definition lower :: "string \<Rightarrow> string" where
  "lower s = map lower_char s"

text \<open>U+0009 to U+000D, U+001C to U+0020.\<close>

definition space1 :: "char \<Rightarrow> bool" where
  "space1 a = (let n = (of_char a :: nat) in (9 \<le> n \<and> n \<le> 13) \<or> (28 \<le> n \<and> n \<le> 32))"

text \<open>U+0085 and U+00A0.\<close>

definition space2 :: "char \<Rightarrow> char \<Rightarrow> bool" where
  "space2 a b = (a = CHR 0xC2 \<and> (b = CHR 0x85 \<or> b = CHR 0xA0))"

text \<open>U+1680, U+2000 to U+200A, U+2028, U+2029, U+202F, U+205F and U+3000.\<close>

definition space3 :: "char \<Rightarrow> char \<Rightarrow> char \<Rightarrow> bool" where
  "space3 a b c =
     (let n = (of_char c :: nat)
      in (a = CHR 0xE1 \<and> b = CHR 0x9A \<and> c = CHR 0x80)
       \<or> (a = CHR 0xE2 \<and> b = CHR 0x80 \<and> ((128 \<le> n \<and> n \<le> 138) \<or> n = 168 \<or> n = 169 \<or> n = 175))
       \<or> (a = CHR 0xE2 \<and> b = CHR 0x81 \<and> c = CHR 0x9F)
       \<or> (a = CHR 0xE3 \<and> b = CHR 0x80 \<and> c = CHR 0x80))"

fun lstrip :: "string \<Rightarrow> string" where
  "lstrip (a # b # c # s) =
     (if space1 a then lstrip (b # c # s)
      else if space2 a b then lstrip (c # s)
      else if space3 a b c then lstrip s
      else a # b # c # s)"
| "lstrip [a, b] = (if space1 a then lstrip [b] else if space2 a b then [] else [a, b])"
| "lstrip [a] = (if space1 a then [] else [a])"
| "lstrip [] = []"

text \<open>The same from the end, on the reversed string: the last byte comes first.\<close>

fun rstrip_rev :: "string \<Rightarrow> string" where
  "rstrip_rev (c # b # a # s) =
     (if space1 c then rstrip_rev (b # a # s)
      else if space2 b c then rstrip_rev (a # s)
      else if space3 a b c then rstrip_rev s
      else c # b # a # s)"
| "rstrip_rev [c, b] = (if space1 c then rstrip_rev [b] else if space2 b c then [] else [c, b])"
| "rstrip_rev [c] = (if space1 c then [] else [c])"
| "rstrip_rev [] = []"

definition rstrip :: "string \<Rightarrow> string" where
  "rstrip s = rev (rstrip_rev (rev s))"

definition strip :: "string \<Rightarrow> string" where
  "strip s = rstrip (lstrip s)"

text \<open>\<open>s.split(sep)\<close> for a one-character separator: never an empty list.\<close>

fun split_on :: "char \<Rightarrow> string \<Rightarrow> string list" where
  "split_on sep [] = [[]]"
| "split_on sep (c # cs) =
     (if c = sep then [] # split_on sep cs
      else (case split_on sep cs of
              [] \<Rightarrow> [[c]]
            | w # ws \<Rightarrow> (c # w) # ws))"

fun join :: "string \<Rightarrow> string list \<Rightarrow> string" where
  "join sep [] = []"
| "join sep [w] = w"
| "join sep (w # ws) = w @ sep @ join sep ws"

text \<open>\<open>s.rfind(c)\<close>: the last index of \<open>c\<close>, or \<open>-1\<close>.\<close>

fun rfind_from :: "char \<Rightarrow> string \<Rightarrow> int \<Rightarrow> int \<Rightarrow> int" where
  "rfind_from c [] i found = found"
| "rfind_from c (x # xs) i found = rfind_from c xs (i + 1) (if x = c then i else found)"

definition rfind :: "string \<Rightarrow> char \<Rightarrow> int" where
  "rfind s c = rfind_from c s 0 (- 1)"

subsection \<open>Exceptions and Python values\<close>

text \<open>
  The exceptions that the program and its libraries raise, each with its message (and
  \<open>HTTPError\<close> with the status and the body of the response it carries). The
  specification names them by role: OutsideRoot and UnsupportedType are the two
  \<open>ValueError\<close>s of \<open>_resolve_workspace_path\<close>, NotFound is its \<open>FileNotFoundError\<close>,
  DecodeError is what \<open>Image.open\<close> raises, BackendUnavailable, BackendTimeout and
  BackendError are the \<open>ConnectionError\<close>, \<open>Timeout\<close> and \<open>HTTPError\<close> of \<open>requests\<close>.
\<close>

datatype exn =
    ValueError string
  | FileNotFoundError string
  | UnidentifiedImageError string
  | ConnectionError string
  | Timeout string
  | HTTPError int string
  | JSONDecodeError string
  | AttributeError string
  | ZeroDivisionError string
  | IsADirectoryError string

text \<open>
  The values a JSON document decodes to and a tool returns. A \<open>dict\<close> keeps its keys
  in insertion order, each key once.
\<close>

datatype pyval =
    PyNone
  | PyBool bool
  | PyInt int
  | PyFloat rat
  | PyStr string
  | PyList "pyval list"
  | PyDict "(string \<times> pyval) list"

text \<open>\<open>d[k] = v\<close>: a present key keeps its place, a new one goes last.\<close>

fun dict_set :: "(string \<times> pyval) list \<Rightarrow> string \<Rightarrow> pyval \<Rightarrow> (string \<times> pyval) list" where
  "dict_set [] k v = [(k, v)]"
| "dict_set ((k', v') # d) k v = (if k' = k then (k, v) # d else (k', v') # dict_set d k v)"

text \<open>\<open>d.get(k, default)\<close>\<close>

definition dict_get :: "(string \<times> pyval) list \<Rightarrow> string \<Rightarrow> pyval \<Rightarrow> pyval" where
  "dict_get d k dflt = (case map_of d k of None \<Rightarrow> dflt | Some v \<Rightarrow> v)"

text \<open>Truth value testing, as \<open>x or y\<close> uses it.\<close>

fun truthy :: "pyval \<Rightarrow> bool" where
  "truthy PyNone = False"
| "truthy (PyBool b) = b"
| "truthy (PyInt n) = (n \<noteq> 0)"
| "truthy (PyFloat x) = (x \<noteq> 0)"
| "truthy (PyStr s) = (s \<noteq> [])"
| "truthy (PyList xs) = (xs \<noteq> [])"
| "truthy (PyDict d) = (d \<noteq> [])"

subsection \<open>\<open>pathlib\<close> on POSIX\<close>

text \<open>
  A path is its anchor (rooted at \<open>/\<close> or not) and its parts. \<open>Path(p)\<close> drops empty
  and \<open>.\<close> components and keeps \<open>..\<close>; only \<open>resolve()\<close>, which asks the file system,
  removes those.
\<close>

record pure_path =
  anchored :: bool
  parts :: "string list"

definition Path :: "string \<Rightarrow> pure_path" where
  "Path p = \<lparr> anchored = (p \<noteq> [] \<and> hd p = CHR ''/''),
             parts = filter (\<lambda>s. s \<noteq> [] \<and> s \<noteq> ''.'') (split_on (CHR ''/'') p) \<rparr>"

definition str_path :: "pure_path \<Rightarrow> string" where
  "str_path p =
     (if anchored p then ''/'' @ join ''/'' (parts p)
      else if parts p = [] then ''.'' else join ''/'' (parts p))"

definition is_absolute :: "pure_path \<Rightarrow> bool" where
  "is_absolute p = anchored p"

text \<open>\<open>a / b\<close>: an absolute right operand replaces the left one.\<close>

definition joinpath :: "pure_path \<Rightarrow> pure_path \<Rightarrow> pure_path" where
  "joinpath a b =
     (if anchored b then b else \<lparr> anchored = anchored a, parts = parts a @ parts b \<rparr>)"

text \<open>\<open>p.relative_to(other)\<close>: purely lexical, raises \<open>ValueError\<close> when \<open>other\<close> is not a
  prefix of \<open>p\<close>.\<close>

definition relative_to :: "pure_path \<Rightarrow> pure_path \<Rightarrow> exn + pure_path" where
  "relative_to p other =
     (if anchored p = anchored other \<and> take (length (parts other)) (parts p) = parts other
      then Inr \<lparr> anchored = False, parts = drop (length (parts other)) (parts p) \<rparr>
      else Inl (ValueError (str_path p @ '' is not in the subpath of '' @ str_path other)))"

definition path_name :: "pure_path \<Rightarrow> string" where
  "path_name p = (if parts p = [] then [] else last (parts p))"

text \<open>\<open>p.suffix\<close>: from the last dot of the name, unless that dot is first or last
  (the rule of \<open>pathlib\<close> up to Python 3.13).\<close>

definition path_suffix :: "pure_path \<Rightarrow> string" where
  "path_suffix p =
     (let n = path_name p; i = rfind n (CHR ''.'')
      in if 0 < i \<and> i < int (length n) - 1 then drop (nat i) n else [])"

subsection \<open>The outside world and the configuration\<close>

record image =
  width :: int
  height :: int
  pixels :: "nat list"

record request =
  url :: string
  payload :: pyval
  timeout :: int

record response =
  status_code :: int
  body :: string

text \<open>
  \<open>path_resolve\<close> is \<open>Path.resolve()\<close> (absolute, no \<open>.\<close>, \<open>..\<close> or symbolic link left),
  \<open>path_exists\<close> is \<open>Path.exists()\<close> and \<open>path_is_file\<close> is \<open>Path.is_file()\<close>;
  \<open>image_open_rgb\<close> is \<open>Image.open(path).convert("RGB")\<close>; \<open>resample\<close> gives the pixels
  of a resized image; \<open>png_b64\<close> is the PNG encoder followed by base64;
  \<open>requests_post\<close> is \<open>requests.post\<close> and \<open>json_loads\<close> is \<open>json.loads\<close>.
\<close>

record env =
  path_resolve :: "pure_path \<Rightarrow> pure_path"
  path_exists :: "pure_path \<Rightarrow> bool"
  path_is_file :: "pure_path \<Rightarrow> bool"
  image_open_rgb :: "pure_path \<Rightarrow> exn + image"
  resample :: "image \<Rightarrow> int \<times> int \<Rightarrow> nat list"
  png_b64 :: "image \<Rightarrow> string"
  requests_post :: "request \<Rightarrow> exn + response"
  json_loads :: "string \<Rightarrow> exn + pyval"

text \<open>The module constants, read from the process environment once at start-up.\<close>

record config =
  WORKSPACE_ROOT :: pure_path
  OLLAMA_HOST :: string
  OLLAMA_MODEL :: string
  MAX_IMAGE_EDGE :: int
  TIMEOUT_S :: int

subsection \<open>\<open>_resolve_workspace_path\<close>\<close>

text \<open>
  Lines 23 to 42. \<open>candidate_of\<close> is line 29; the three tests follow in the order of
  the source: containment (lines 31 to 34), existence (36, 37), suffix (39, 40).
\<close>

definition allowed_suffixes :: "string list" where
  "allowed_suffixes = [''.png'', ''.jpg'', ''.jpeg'', ''.webp'', ''.bmp'']"

definition candidate_of :: "env \<Rightarrow> config \<Rightarrow> string \<Rightarrow> pure_path" where
  "candidate_of E C p =
     (let raw = Path p
      in if \<not> is_absolute raw then path_resolve E (joinpath (WORKSPACE_ROOT C) raw)
         else path_resolve E raw)"

definition resolve_workspace_path :: "env \<Rightarrow> config \<Rightarrow> string \<Rightarrow> exn + pure_path" where
  "resolve_workspace_path E C p =
     (let candidate = candidate_of E C p
      in case relative_to candidate (WORKSPACE_ROOT C) of
           Inl ex \<Rightarrow>
             Inl (ValueError (''Path must be within workspace root: '' @ str_path (WORKSPACE_ROOT C)))
         | Inr _ \<Rightarrow>
             if \<not> path_exists E candidate
             then Inl (FileNotFoundError (''File not found: '' @ str_path candidate))
             else if lower (path_suffix candidate) \<notin> set allowed_suffixes
             then Inl (ValueError (''Unsupported image type: '' @ path_suffix candidate))
             else Inr candidate)"

subsection \<open>Python floats\<close>

text \<open>
  A \<open>float\<close> is an IEEE 754 binary64 number, modelled by the rational it denotes.
  \<open>float_round\<close> rounds a rational to the nearest number with a 53-bit significand,
  ties to even: with \<open>2 ^ e \<le> \<bar>x\<bar> < 2 ^ (e + 1)\<close> the result is a multiple of
  \<open>2 ^ (e - 52)\<close>. Overflow and subnormal numbers are left out: the magnitudes that
  occur below lie between \<open>2 ^ - 1022\<close> and \<open>2 ^ 1024\<close>.
\<close>

definition pow2 :: "int \<Rightarrow> rat" where
  "pow2 e = (if 0 \<le> e then 2 ^ nat e else 1 / 2 ^ nat (- e))"

definition float_exponent :: "rat \<Rightarrow> int" where
  "float_exponent x =
     (let d = bitlen (fst (quotient_of x)) - bitlen (snd (quotient_of x))
      in if pow2 d \<le> x then d else d - 1)"

definition round_half_even :: "rat \<Rightarrow> int" where
  "round_half_even q =
     (let n = \<lfloor>q\<rfloor>; r = q - of_int n
      in if r < 1 / 2 then n
         else if 1 / 2 < r then n + 1
         else if even n then n else n + 1)"

definition float_round :: "rat \<Rightarrow> rat" where
  "float_round x =
     (if x = 0 then 0
      else let u = pow2 (float_exponent \<bar>x\<bar> - 52)
           in sgn x * of_int (round_half_even (\<bar>x\<bar> / u)) * u)"

text \<open>\<open>a / b\<close> on two \<open>int\<close>s: the correctly rounded quotient.\<close>

definition int_truediv :: "int \<Rightarrow> int \<Rightarrow> exn + rat" where
  "int_truediv a b =
     (if b = 0 then Inl (ZeroDivisionError ''division by zero'')
      else Inr (float_round (of_int a / of_int b)))"

text \<open>\<open>n * x\<close> for an \<open>int\<close> and a \<open>float\<close>: the \<open>int\<close> is converted first.\<close>

definition int_mul_float :: "int \<Rightarrow> rat \<Rightarrow> rat" where
  "int_mul_float n x = float_round (float_round (of_int n) * x)"

text \<open>\<open>int(x)\<close> truncates towards zero.\<close>

definition py_int :: "rat \<Rightarrow> int" where
  "py_int x = (if 0 \<le> x then \<lfloor>x\<rfloor> else \<lceil>x\<rceil>)"

subsection \<open>\<open>_load_image_b64\<close>\<close>

text \<open>
  \<open>Image.resize\<close> refuses a target size with a side below one pixel; otherwise the
  result has exactly the size asked for.
\<close>

definition resize :: "env \<Rightarrow> image \<Rightarrow> int \<times> int \<Rightarrow> exn + image" where
  "resize E img target =
     (if fst target < 1 \<or> snd target < 1 then Inl (ValueError ''height and width must be > 0'')
      else Inr \<lparr> width = fst target, height = snd target, pixels = resample E img target \<rparr>)"

text \<open>The size handed to \<open>resize\<close> when the image is too large (lines 56 and 57).\<close>

definition scaled_size :: "int \<Rightarrow> int \<times> int \<Rightarrow> exn + int \<times> int" where
  "scaled_size max_edge wh =
     (let w = fst wh; h = snd wh; edge = max w h
      in case int_truediv max_edge edge of
           Inl ex \<Rightarrow> Inl ex
         | Inr scale \<Rightarrow> Inr (py_int (int_mul_float w scale), py_int (int_mul_float h scale)))"

text \<open>The downscaling step (lines 53 to 57).\<close>

definition downscale :: "env \<Rightarrow> config \<Rightarrow> image \<Rightarrow> exn + image" where
  "downscale E C img =
     (let w = width img; h = height img; edge = max w h
      in if edge > MAX_IMAGE_EDGE C
         then (case scaled_size (MAX_IMAGE_EDGE C) (w, h) of
                 Inl ex \<Rightarrow> Inl ex
               | Inr target \<Rightarrow> resize E img target)
         else Inr img)"

definition load_image_b64 :: "env \<Rightarrow> config \<Rightarrow> pure_path \<Rightarrow> exn + string" where
  "load_image_b64 E C path =
     (case image_open_rgb E path of
        Inl ex \<Rightarrow> Inl ex
      | Inr img \<Rightarrow>
          (case downscale E C img of
             Inl ex \<Rightarrow> Inl ex
           | Inr img' \<Rightarrow> Inr (png_b64 E img')))"

subsection \<open>\<open>_ollama_chat_with_image\<close>\<close>

definition chat_payload :: "config \<Rightarrow> string \<Rightarrow> string \<Rightarrow> bool \<Rightarrow> (string \<times> pyval) list" where
  "chat_payload C image_b64 prompt json_mode =
     (let payload =
            [(''model'', PyStr (OLLAMA_MODEL C)),
             (''messages'',
                PyList [PyDict [(''role'', PyStr ''user''),
                                (''content'', PyStr prompt),
                                (''images'', PyList [PyStr image_b64])]]),
             (''stream'', PyBool False)]
      in if json_mode then dict_set payload ''format'' (PyStr ''json'') else payload)"

text \<open>\<open>r.raise_for_status()\<close> raises for the statuses 400 to 599 and for no other.\<close>

definition raise_for_status :: "response \<Rightarrow> exn + unit" where
  "raise_for_status r =
     (if 400 \<le> status_code r \<and> status_code r < 600
      then Inl (HTTPError (status_code r) (body r))
      else Inr ())"

definition response_json :: "env \<Rightarrow> response \<Rightarrow> exn + pyval" where
  "response_json E r = json_loads E (body r)"

text \<open>Only a \<open>dict\<close> has \<open>get\<close>, only a \<open>str\<close> has \<open>strip\<close>.\<close>

fun py_get :: "pyval \<Rightarrow> string \<Rightarrow> pyval \<Rightarrow> exn + pyval" where
  "py_get (PyDict d) k dflt = Inr (dict_get d k dflt)"
| "py_get v k dflt = Inl (AttributeError ''get'')"

definition py_or :: "pyval \<Rightarrow> pyval \<Rightarrow> pyval" where
  "py_or a b = (if truthy a then a else b)"

fun py_strip :: "pyval \<Rightarrow> exn + string" where
  "py_strip (PyStr s) = Inr (strip s)"
| "py_strip v = Inl (AttributeError ''strip'')"

text \<open>Line 88: \<open>(data.get("message", {}) or {}).get("content", "").strip()\<close>\<close>

definition message_content :: "pyval \<Rightarrow> exn + string" where
  "message_content data =
     (case py_get data ''message'' (PyDict []) of
        Inl ex \<Rightarrow> Inl ex
      | Inr m \<Rightarrow>
          (case py_get (py_or m (PyDict [])) ''content'' (PyStr []) of
             Inl ex \<Rightarrow> Inl ex
           | Inr c \<Rightarrow> py_strip c))"

definition chat_request :: "config \<Rightarrow> string \<Rightarrow> string \<Rightarrow> bool \<Rightarrow> request" where
  "chat_request C image_b64 prompt json_mode =
     \<lparr> url = OLLAMA_HOST C @ ''/api/chat'',
       payload = PyDict (chat_payload C image_b64 prompt json_mode),
       timeout = TIMEOUT_S C \<rparr>"

text \<open>
  Lines 64 to 88. The result comes with the requests that were posted, in order: the
  one request of line 81, also when posting it raises.
\<close>

definition ollama_chat_with_image ::
  "env \<Rightarrow> config \<Rightarrow> string \<Rightarrow> string \<Rightarrow> bool \<Rightarrow> (exn + string) \<times> request list" where
  "ollama_chat_with_image E C image_b64 prompt json_mode =
     (let req = chat_request C image_b64 prompt json_mode
      in ((case requests_post E req of
             Inl ex \<Rightarrow> Inl ex
           | Inr r \<Rightarrow>
               (case raise_for_status r of
                  Inl ex \<Rightarrow> Inl ex
                | Inr u \<Rightarrow>
                    (case response_json E r of
                       Inl ex \<Rightarrow> Inl ex
                     | Inr data \<Rightarrow> message_content data))),
          [req]))"

subsection \<open>The tools\<close>

definition nl :: string where
  "nl = [CHR 0x0A]"

definition dq :: string where
  "dq = [CHR 0x22]"

definition ocr_prompt :: string where
  "ocr_prompt =
     ''Extract ALL visible text from this image.'' @ nl @
     ''Rules:'' @ nl @
     ''- Keep original spelling, casing, punctuation.'' @ nl @
     ''- Preserve line breaks.'' @ nl @
     ''- If something is partially unreadable, write [illegible].'' @ nl @
     ''Return only the extracted text.''"

definition element_types :: "string list" where
  "element_types =
     [''button'', ''text'', ''input'', ''checkbox'', ''toggle'', ''image'', ''icon'', ''panel'',
      ''list'', ''table'', ''link'', ''other'']"

text \<open>The right single quotation mark U+2019 of the last line is its three bytes.\<close>

definition ui_spec_prompt :: string where
  "ui_spec_prompt =
     ''You are extracting a UI spec from a screenshot.'' @ nl @
     ''Return JSON ONLY with this shape:'' @ nl @
     ''{'' @ nl @
     ''  '' @ dq @ ''summary'' @ dq @ '': string,'' @ nl @
     ''  '' @ dq @ ''elements'' @ dq @ '': ['' @ nl @
     ''    {'' @ nl @
     ''      '' @ dq @ ''type'' @ dq @ '': '' @ join ''|'' (map (\<lambda>t. dq @ t @ dq) element_types) @ '','' @ nl @
     ''      '' @ dq @ ''label'' @ dq @ '': string|null,'' @ nl @
     ''      '' @ dq @ ''role'' @ dq @ '': string|null,'' @ nl @
     ''      '' @ dq @ ''bounds'' @ dq @ '': {'' @ dq @ ''x'' @ dq @ '': number, '' @ dq @ ''y'' @ dq @ '': number, ''
        @ dq @ ''w'' @ dq @ '': number, '' @ dq @ ''h'' @ dq @ '': number},'' @ nl @
     ''      '' @ dq @ ''notes'' @ dq @ '': string|null'' @ nl @
     ''    }'' @ nl @
     ''  ]'' @ nl @
     ''}'' @ nl @
     ''Coordinates are in pixels relative to the top-left of the image.'' @ nl @
     ''If you can'' @ [CHR 0xE2, CHR 0x80, CHR 0x99] @
     ''t estimate bounds reliably, still include the element with approximate bounds and note it in notes.''"

text \<open>
  Lines 91 to 174. A tool returns a \<open>dict\<close> or raises, and leaves the requests it
  posted.
\<close>

type_synonym tool_result = "(exn + (string \<times> pyval) list) \<times> request list"

definition vision_ask :: "env \<Rightarrow> config \<Rightarrow> string \<Rightarrow> string \<Rightarrow> tool_result" where
  "vision_ask E C image_path question =
     (case resolve_workspace_path E C image_path of
        Inl ex \<Rightarrow> (Inl ex, [])
      | Inr path \<Rightarrow>
          (case load_image_b64 E C path of
             Inl ex \<Rightarrow> (Inl ex, [])
           | Inr b64 \<Rightarrow>
               (case ollama_chat_with_image E C b64 question False of
                  (Inl ex, sent) \<Rightarrow> (Inl ex, sent)
                | (Inr answer, sent) \<Rightarrow>
                    (case relative_to path (WORKSPACE_ROOT C) of
                       Inl ex \<Rightarrow> (Inl ex, sent)
                     | Inr rel \<Rightarrow>
                         (Inr [(''model'', PyStr (OLLAMA_MODEL C)),
                               (''image'', PyStr (str_path rel)),
                               (''answer'', PyStr answer)], sent)))))"

definition vision_ocr :: "env \<Rightarrow> config \<Rightarrow> string \<Rightarrow> tool_result" where
  "vision_ocr E C image_path =
     (case resolve_workspace_path E C image_path of
        Inl ex \<Rightarrow> (Inl ex, [])
      | Inr path \<Rightarrow>
          (case load_image_b64 E C path of
             Inl ex \<Rightarrow> (Inl ex, [])
           | Inr b64 \<Rightarrow>
               (case ollama_chat_with_image E C b64 ocr_prompt False of
                  (Inl ex, sent) \<Rightarrow> (Inl ex, sent)
                | (Inr txt, sent) \<Rightarrow>
                    (case relative_to path (WORKSPACE_ROOT C) of
                       Inl ex \<Rightarrow> (Inl ex, sent)
                     | Inr rel \<Rightarrow>
                         (Inr [(''model'', PyStr (OLLAMA_MODEL C)),
                               (''image'', PyStr (str_path rel)),
                               (''text'', PyStr txt)], sent)))))"

text \<open>
  Lines 162 to 174: the \<open>try\<close> block decodes the reply and builds the result; any
  exception raised there selects the \<open>except\<close> block, which builds the other result.
\<close>

definition ui_spec_try :: "env \<Rightarrow> config \<Rightarrow> pure_path \<Rightarrow> string \<Rightarrow> exn + (string \<times> pyval) list" where
  "ui_spec_try E C path raw =
     (case json_loads E raw of
        Inl ex \<Rightarrow> Inl ex
      | Inr parsed \<Rightarrow>
          (case relative_to path (WORKSPACE_ROOT C) of
             Inl ex \<Rightarrow> Inl ex
           | Inr rel \<Rightarrow>
               Inr [(''model'', PyStr (OLLAMA_MODEL C)),
                    (''image'', PyStr (str_path rel)),
                    (''ui'', parsed)]))"

definition ui_spec_except :: "config \<Rightarrow> pure_path \<Rightarrow> string \<Rightarrow> exn + (string \<times> pyval) list" where
  "ui_spec_except C path raw =
     (case relative_to path (WORKSPACE_ROOT C) of
        Inl ex \<Rightarrow> Inl ex
      | Inr rel \<Rightarrow>
          Inr [(''model'', PyStr (OLLAMA_MODEL C)),
               (''image'', PyStr (str_path rel)),
               (''ui_raw'', PyStr raw)])"

definition vision_ui_spec :: "env \<Rightarrow> config \<Rightarrow> string \<Rightarrow> tool_result" where
  "vision_ui_spec E C image_path =
     (case resolve_workspace_path E C image_path of
        Inl ex \<Rightarrow> (Inl ex, [])
      | Inr path \<Rightarrow>
          (case load_image_b64 E C path of
             Inl ex \<Rightarrow> (Inl ex, [])
           | Inr b64 \<Rightarrow>
               (case ollama_chat_with_image E C b64 ui_spec_prompt True of
                  (Inl ex, sent) \<Rightarrow> (Inl ex, sent)
                | (Inr raw, sent) \<Rightarrow>
                    (case ui_spec_try E C path raw of
                       Inr res \<Rightarrow> (Inr res, sent)
                     | Inl ex \<Rightarrow> (ui_spec_except C path raw, sent)))))"

subsection \<open>The words of the specification\<close>

text \<open>
  A path is inside a root when it is the root or lies under it: same anchor, and the
  parts of the root are the first parts of the path.
\<close>

definition inside :: "pure_path \<Rightarrow> pure_path \<Rightarrow> bool" where
  "inside p base = (anchored p = anchored base \<and> prefix (parts base) (parts p))"

text \<open>
  The UiSpecDocument shape, as the prompt of \<open>vision_ui_spec\<close> and the data model
  describe it. The program has no function that tests it.
\<close>

fun is_number :: "pyval \<Rightarrow> bool" where
  "is_number (PyInt n) = True"
| "is_number (PyFloat x) = True"
| "is_number v = False"

fun is_text :: "pyval \<Rightarrow> bool" where
  "is_text (PyStr s) = True"
| "is_text v = False"

fun is_text_or_null :: "pyval \<Rightarrow> bool" where
  "is_text_or_null (PyStr s) = True"
| "is_text_or_null PyNone = True"
| "is_text_or_null v = False"

definition has_field :: "(string \<times> pyval) list \<Rightarrow> string \<Rightarrow> (pyval \<Rightarrow> bool) \<Rightarrow> bool" where
  "has_field d k P = (case map_of d k of None \<Rightarrow> False | Some v \<Rightarrow> P v)"

fun is_bounds :: "pyval \<Rightarrow> bool" where
  "is_bounds (PyDict d) =
     (has_field d ''x'' is_number \<and> has_field d ''y'' is_number \<and>
      has_field d ''w'' is_number \<and> has_field d ''h'' is_number)"
| "is_bounds v = False"

fun is_element_type :: "pyval \<Rightarrow> bool" where
  "is_element_type (PyStr s) = (s \<in> set element_types)"
| "is_element_type v = False"

fun is_ui_element :: "pyval \<Rightarrow> bool" where
  "is_ui_element (PyDict d) =
     (has_field d ''type'' is_element_type \<and> has_field d ''label'' is_text_or_null \<and>
      has_field d ''role'' is_text_or_null \<and> has_field d ''bounds'' is_bounds \<and>
      has_field d ''notes'' is_text_or_null)"
| "is_ui_element v = False"

fun is_element_list :: "pyval \<Rightarrow> bool" where
  "is_element_list (PyList xs) = list_all is_ui_element xs"
| "is_element_list v = False"

fun is_UiSpecDocument :: "pyval \<Rightarrow> bool" where
  "is_UiSpecDocument (PyDict d) =
     (has_field d ''summary'' is_text \<and> has_field d ''elements'' is_element_list)"
| "is_UiSpecDocument v = False"

text \<open>
  A request as the backend contract wants it: one message, of role \<open>user\<close>, with one
  image; no streaming; the key \<open>format\<close>, with the value \<open>json\<close>, present exactly in
  structured mode.
\<close>

fun is_one_image :: "pyval option \<Rightarrow> bool" where
  "is_one_image (Some (PyList [PyStr img])) = True"
| "is_one_image v = False"

fun is_one_user_message :: "pyval option \<Rightarrow> bool" where
  "is_one_user_message (Some (PyList [PyDict m])) =
     (map_of m ''role'' = Some (PyStr ''user'') \<and> is_one_image (map_of m ''images''))"
| "is_one_user_message v = False"

fun is_chat_payload :: "bool \<Rightarrow> pyval \<Rightarrow> bool" where
  "is_chat_payload structured (PyDict d) =
     (is_one_user_message (map_of d ''messages'') \<and>
      map_of d ''stream'' = Some (PyBool False) \<and>
      map_of d ''format'' = (if structured then Some (PyStr ''json'') else None))"
| "is_chat_payload structured v = False"

subsection \<open>A world to run the tools in\<close>

text \<open>
  A file system without symbolic links, where \<open>resolve()\<close> only has to make the path
  absolute and to walk its \<open>..\<close> parts (the parent of the root being the root).
\<close>

fun walk_parts :: "string list \<Rightarrow> string list \<Rightarrow> string list" where
  "walk_parts seen [] = rev seen"
| "walk_parts seen (x # xs) =
     (if x = ''..'' then walk_parts (drop 1 seen) xs else walk_parts (x # seen) xs)"

definition lexical_resolve :: "pure_path \<Rightarrow> pure_path \<Rightarrow> pure_path" where
  "lexical_resolve cwd p =
     \<lparr> anchored = True,
       parts = walk_parts [] (if anchored p then parts p else parts cwd @ parts p) \<rparr>"

datatype entry = RegularFile "image option" | Directory

definition abs_path :: "string list \<Rightarrow> pure_path" where
  "abs_path ps = \<lparr> anchored = True, parts = ps \<rparr>"

text \<open>
  Under \<open>/work\<close>: three images, a file that is no image of an allowed type, and a
  directory whose name ends in \<open>.png\<close>. Outside: \<open>/etc/passwd\<close>.
\<close>

definition entries :: "(pure_path \<times> entry) list" where
  "entries =
     [(abs_path [''work''], Directory),
      (abs_path [''work'', ''shot.png''],
         RegularFile (Some \<lparr> width = 3200, height = 1800, pixels = [] \<rparr>)),
      (abs_path [''work'', ''icon.png''],
         RegularFile (Some \<lparr> width = 640, height = 480, pixels = [] \<rparr>)),
      (abs_path [''work'', ''tall.png''],
         RegularFile (Some \<lparr> width = 1, height = 2000, pixels = [] \<rparr>)),
      (abs_path [''work'', ''shot.gif''], RegularFile None),
      (abs_path [''work'', ''shots.png''], Directory),
      (abs_path [''etc''], Directory),
      (abs_path [''etc'', ''passwd''], RegularFile None)]"

definition open_entry :: "pure_path \<Rightarrow> exn + image" where
  "open_entry p =
     (case map_of entries p of
        None \<Rightarrow> Inl (FileNotFoundError (str_path p))
      | Some Directory \<Rightarrow> Inl (IsADirectoryError (str_path p))
      | Some (RegularFile None) \<Rightarrow> Inl (UnidentifiedImageError (str_path p))
      | Some (RegularFile (Some img)) \<Rightarrow> Inr img)"

text \<open>
  The world answers every request with \<open>reply\<close> and decodes exactly the documents
  listed in \<open>docs\<close>.
\<close>

definition world :: "exn + response \<Rightarrow> (string \<times> pyval) list \<Rightarrow> env" where
  "world reply docs =
     \<lparr> path_resolve = lexical_resolve (abs_path [''work'']),
       path_exists = (\<lambda>p. map_of entries p \<noteq> None),
       path_is_file = (\<lambda>p. case map_of entries p of Some (RegularFile f) \<Rightarrow> True | _ \<Rightarrow> False),
       image_open_rgb = open_entry,
       resample = (\<lambda>img target. []),
       png_b64 = (\<lambda>img. ''iVBORw0KGgo=''),
       requests_post = (\<lambda>req. reply),
       json_loads = (\<lambda>s. case map_of docs s of
                             None \<Rightarrow> Inl (JSONDecodeError ''Expecting value'')
                           | Some v \<Rightarrow> Inr v) \<rparr>"

definition work_config :: config where
  "work_config =
     \<lparr> WORKSPACE_ROOT = abs_path [''work''],
       OLLAMA_HOST = ''http://localhost:11434'',
       OLLAMA_MODEL = ''qwen2.5vl:7b'',
       MAX_IMAGE_EDGE = 1600,
       TIMEOUT_S = 120 \<rparr>"

text \<open>
  A world whose backend answers with the given status and a body that decodes to a
  reply with the given message content; the decoder also knows two documents a model
  might send as content.
\<close>

definition ok_world :: "int \<Rightarrow> string \<Rightarrow> env" where
  "ok_world status content =
     world (Inr \<lparr> status_code = status, body = ''B'' \<rparr>)
       [(''B'', PyDict [(''message'', PyDict [(''content'', PyStr content)])]),
        (''{\"answer\": 42}'', PyDict [(''answer'', PyInt 42)]),
        (''{\"summary\":\"ok\",\"elements\":[]}'',
           PyDict [(''summary'', PyStr ''ok''), (''elements'', PyList [])])]"

section \<open>Path resolution\<close>

lemma take_eq_prefix: "(take (length xs) ys = xs) = prefix xs ys"
  by (metis append_eq_conv_conj prefix_def)

lemma relative_to_Inr_iff: "(\<exists>rel. relative_to p b = Inr rel) = inside p b"
  by (auto simp: relative_to_def inside_def take_eq_prefix)

lemma relative_to_Inl_iff: "(\<exists>ex. relative_to p b = Inl ex) = (\<not> inside p b)"
  by (auto simp: relative_to_def inside_def take_eq_prefix)


lemma resolve_outside:
  "\<not> inside (candidate_of E C p) (WORKSPACE_ROOT C) \<Longrightarrow>
   resolve_workspace_path E C p =
     Inl (ValueError (''Path must be within workspace root: '' @ str_path (WORKSPACE_ROOT C)))"
  using relative_to_Inl_iff [of "candidate_of E C p" "WORKSPACE_ROOT C"]
  by (auto simp: resolve_workspace_path_def Let_def split: sum.splits)

lemma resolve_inside:
  "inside (candidate_of E C p) (WORKSPACE_ROOT C) \<Longrightarrow>
   resolve_workspace_path E C p =
     (if \<not> path_exists E (candidate_of E C p)
      then Inl (FileNotFoundError (''File not found: '' @ str_path (candidate_of E C p)))
      else if lower (path_suffix (candidate_of E C p)) \<notin> set allowed_suffixes
      then Inl (ValueError (''Unsupported image type: '' @ path_suffix (candidate_of E C p)))
      else Inr (candidate_of E C p))"
  using relative_to_Inr_iff [of "candidate_of E C p" "WORKSPACE_ROOT C"]
  by (auto simp: resolve_workspace_path_def Let_def split: sum.splits)

lemma resolve_Inr_D:
  "resolve_workspace_path E C p = Inr q \<Longrightarrow>
   q = candidate_of E C p \<and> inside q (WORKSPACE_ROOT C) \<and> path_exists E q \<and>
   lower (path_suffix q) \<in> set allowed_suffixes"
  by (cases "inside (candidate_of E C p) (WORKSPACE_ROOT C)")
     (auto simp: resolve_inside resolve_outside split: if_splits)









section \<open>The backend client and the tools\<close>

lemma chat_sent:
  "snd (ollama_chat_with_image E C b64 prompt jm) = [chat_request C b64 prompt jm]"
  by (simp add: ollama_chat_with_image_def Let_def)

lemma chat_outcome:
  "fst (ollama_chat_with_image E C b64 prompt jm) =
     (case requests_post E (chat_request C b64 prompt jm) of
        Inl ex \<Rightarrow> Inl ex
      | Inr r \<Rightarrow>
          (case raise_for_status r of
             Inl ex \<Rightarrow> Inl ex
           | Inr u \<Rightarrow>
               (case response_json E r of
                  Inl ex \<Rightarrow> Inl ex
                | Inr data \<Rightarrow> message_content data)))"
  by (simp add: ollama_chat_with_image_def Let_def)

lemma chat_payload_shape:
  "is_chat_payload jm (payload (chat_request C b64 prompt jm))"
  by (simp add: chat_request_def chat_payload_def)

lemma chat_sentD:
  "ollama_chat_with_image E C b64 prompt jm = (a, sent) \<Longrightarrow> sent = [chat_request C b64 prompt jm]"
  using chat_sent [of E C b64 prompt jm] by simp

lemma vision_ask_sent:
  "snd (vision_ask E C p q) = [] \<or>
   (\<exists>b64. snd (vision_ask E C p q) = [chat_request C b64 q False])"
  by (auto simp: vision_ask_def split: sum.splits prod.splits dest: chat_sentD)

lemma vision_ocr_sent:
  "snd (vision_ocr E C p) = [] \<or>
   (\<exists>b64. snd (vision_ocr E C p) = [chat_request C b64 ocr_prompt False])"
  by (auto simp: vision_ocr_def split: sum.splits prod.splits dest: chat_sentD)

lemma vision_ui_spec_sent:
  "snd (vision_ui_spec E C p) = [] \<or>
   (\<exists>b64. snd (vision_ui_spec E C p) = [chat_request C b64 ui_spec_prompt True])"
  by (auto simp: vision_ui_spec_def split: sum.splits prod.splits dest: chat_sentD)

text \<open>
  Claim C6. The payload of every request the client builds has exactly one message, of
  role \<open>user\<close>, carrying exactly one image; \<open>stream\<close> is false; and the key \<open>format\<close>
  is there, with the value \<open>json\<close>, exactly when \<open>json_mode\<close> is true. The client posts
  that one request and no other. Every request \<open>vision_ask\<close> and \<open>vision_ocr\<close> post is
  without \<open>format\<close>, every request \<open>vision_ui_spec\<close> posts has it.
\<close>

theorem one_image_per_request:
  "is_chat_payload jm (payload (chat_request C b64 prompt jm))
   \<and> snd (ollama_chat_with_image E C b64 prompt jm) = [chat_request C b64 prompt jm]
   \<and> list_all (\<lambda>r. is_chat_payload False (payload r)) (snd (vision_ask E C p q))
   \<and> list_all (\<lambda>r. is_chat_payload False (payload r)) (snd (vision_ocr E C p))
   \<and> list_all (\<lambda>r. is_chat_payload True (payload r)) (snd (vision_ui_spec E C p))"
proof (intro conjI)
  show "is_chat_payload jm (payload (chat_request C b64 prompt jm))"
    by (rule chat_payload_shape)
  show "snd (ollama_chat_with_image E C b64 prompt jm) = [chat_request C b64 prompt jm]"
    by (rule chat_sent)
  show "list_all (\<lambda>r. is_chat_payload False (payload r)) (snd (vision_ask E C p q))"
    using vision_ask_sent [of E C p q] by (auto simp: chat_payload_shape)
  show "list_all (\<lambda>r. is_chat_payload False (payload r)) (snd (vision_ocr E C p))"
    using vision_ocr_sent [of E C p] by (auto simp: chat_payload_shape)
  show "list_all (\<lambda>r. is_chat_payload True (payload r)) (snd (vision_ui_spec E C p))"
    using vision_ui_spec_sent [of E C p] by (auto simp: chat_payload_shape)
qed

theorem one_image_per_request_witness:
  "snd (vision_ui_spec (ok_world 200 ''hi'') work_config ''shot.png'') =
     [chat_request work_config ''iVBORw0KGgo='' ui_spec_prompt True]
   \<and> list_all (\<lambda>r. is_chat_payload True (payload r))
        (snd (vision_ui_spec (ok_world 200 ''hi'') work_config ''shot.png''))
   \<and> snd (vision_ask (ok_world 200 ''hi'') work_config ''shot.png'' ''What?'') =
     [chat_request work_config ''iVBORw0KGgo='' ''What?'' False]
   \<and> list_all (\<lambda>r. is_chat_payload False (payload r))
        (snd (vision_ask (ok_world 200 ''hi'') work_config ''shot.png'' ''What?''))"
proof -
  have a: "snd (vision_ui_spec (ok_world 200 ''hi'') work_config ''shot.png'') =
     [chat_request work_config ''iVBORw0KGgo='' ui_spec_prompt True]"
    by code_simp
  have b: "snd (vision_ask (ok_world 200 ''hi'') work_config ''shot.png'' ''What?'') =
     [chat_request work_config ''iVBORw0KGgo='' ''What?'' False]"
    by code_simp
  show ?thesis
    using one_image_per_request [of True work_config "[]" "[]" "ok_world 200 ''hi''" "''shot.png''" "''What?''"] a b
    by blast
qed


lemma chat_error_status:
  "requests_post E (chat_request C b64 prompt jm) = Inr r \<Longrightarrow>
   400 \<le> status_code r \<Longrightarrow> status_code r < 600 \<Longrightarrow>
   fst (ollama_chat_with_image E C b64 prompt jm) = Inl (HTTPError (status_code r) (body r))"
  by (simp add: chat_outcome raise_for_status_def)

lemma chat_post_raises:
  "requests_post E (chat_request C b64 prompt jm) = Inl ex \<Longrightarrow>
   fst (ollama_chat_with_image E C b64 prompt jm) = Inl ex"
  by (simp add: chat_outcome)

lemma vision_ask_chat_fails:
  "resolve_workspace_path E C p = Inr path \<Longrightarrow> load_image_b64 E C path = Inr b64 \<Longrightarrow>
   fst (ollama_chat_with_image E C b64 q False) = Inl ex \<Longrightarrow>
   fst (vision_ask E C p q) = Inl ex"
  by (cases "ollama_chat_with_image E C b64 q False") (simp add: vision_ask_def)

lemma vision_ocr_chat_fails:
  "resolve_workspace_path E C p = Inr path \<Longrightarrow> load_image_b64 E C path = Inr b64 \<Longrightarrow>
   fst (ollama_chat_with_image E C b64 ocr_prompt False) = Inl ex \<Longrightarrow>
   fst (vision_ocr E C p) = Inl ex"
  by (cases "ollama_chat_with_image E C b64 ocr_prompt False") (simp add: vision_ocr_def)

lemma vision_ui_spec_chat_fails:
  "resolve_workspace_path E C p = Inr path \<Longrightarrow> load_image_b64 E C path = Inr b64 \<Longrightarrow>
   fst (ollama_chat_with_image E C b64 ui_spec_prompt True) = Inl ex \<Longrightarrow>
   fst (vision_ui_spec E C p) = Inl ex"
  by (cases "ollama_chat_with_image E C b64 ui_spec_prompt True") (simp add: vision_ui_spec_def)

text \<open>
  Claim C7, as stated, fails: \<open>raise_for_status\<close> raises for the statuses 400 to 599
  only. A backend that answers 300 with a decodable body is taken as a success, by the
  chat call and by \<open>vision_ask\<close>.
\<close>

theorem redirect_status_is_not_an_error:
  "requests_post (ok_world 300 ''hi'') (chat_request work_config ''iVBORw0KGgo='' ''What?'' False) =
     Inr \<lparr> status_code = 300, body = ''B'' \<rparr>
   \<and> fst (ollama_chat_with_image (ok_world 300 ''hi'') work_config ''iVBORw0KGgo='' ''What?'' False) =
     Inr ''hi''
   \<and> fst (vision_ask (ok_world 300 ''hi'') work_config ''shot.png'' ''What?'') =
     Inr [(''model'', PyStr ''qwen2.5vl:7b''), (''image'', PyStr ''shot.png''),
          (''answer'', PyStr ''hi'')]"
  by code_simp

text \<open>
  Claim C7, amended. When the backend answers with a status from 400 to 599, the chat
  call raises \<open>HTTPError\<close> with that status and the body; when \<open>requests.post\<close> itself
  raises (\<open>ConnectionError\<close>, \<open>Timeout\<close>), the chat call raises the same exception.
  Whatever the chat call raises, each of the three tools raises too, and returns no
  result.
\<close>

theorem error_status_fails_the_call:
  assumes "resolve_workspace_path E C p = Inr path"
    and "load_image_b64 E C path = Inr b64"
  shows "(requests_post E (chat_request C b64 prompt jm) = Inr r \<and>
            400 \<le> status_code r \<and> status_code r < 600 \<longrightarrow>
          fst (ollama_chat_with_image E C b64 prompt jm) =
            Inl (HTTPError (status_code r) (body r)))
       \<and> (requests_post E (chat_request C b64 prompt jm) = Inl ex \<longrightarrow>
          fst (ollama_chat_with_image E C b64 prompt jm) = Inl ex)
       \<and> (fst (ollama_chat_with_image E C b64 q False) = Inl ex \<longrightarrow>
          fst (vision_ask E C p q) = Inl ex)
       \<and> (fst (ollama_chat_with_image E C b64 ocr_prompt False) = Inl ex \<longrightarrow>
          fst (vision_ocr E C p) = Inl ex)
       \<and> (fst (ollama_chat_with_image E C b64 ui_spec_prompt True) = Inl ex \<longrightarrow>
          fst (vision_ui_spec E C p) = Inl ex)"
  using assms
  by (intro conjI impI)
     (simp_all add: chat_error_status chat_post_raises vision_ask_chat_fails
        vision_ocr_chat_fails vision_ui_spec_chat_fails)

theorem error_status_fails_the_call_witness:
  "resolve_workspace_path (ok_world 500 ''hi'') work_config ''shot.png'' = Inr (abs_path [''work'', ''shot.png''])
   \<and> load_image_b64 (ok_world 500 ''hi'') work_config (abs_path [''work'', ''shot.png'']) = Inr ''iVBORw0KGgo=''
   \<and> requests_post (ok_world 500 ''hi'') (chat_request work_config ''iVBORw0KGgo='' ''What?'' False) =
        Inr \<lparr> status_code = 500, body = ''B'' \<rparr>
   \<and> fst (ollama_chat_with_image (ok_world 500 ''hi'') work_config ''iVBORw0KGgo='' ''What?'' False) =
        Inl (HTTPError 500 ''B'')
   \<and> fst (vision_ask (ok_world 500 ''hi'') work_config ''shot.png'' ''What?'') = Inl (HTTPError 500 ''B'')
   \<and> fst (vision_ocr (ok_world 500 ''hi'') work_config ''shot.png'') = Inl (HTTPError 500 ''B'')
   \<and> fst (vision_ui_spec (ok_world 500 ''hi'') work_config ''shot.png'') = Inl (HTTPError 500 ''B'')
   \<and> fst (vision_ask (world (Inl (ConnectionError ''refused'')) []) work_config ''shot.png'' ''What?'') =
        Inl (ConnectionError ''refused'')
   \<and> fst (vision_ask (world (Inl (Timeout ''read'')) []) work_config ''shot.png'' ''What?'') =
        Inl (Timeout ''read'')"
proof -
  let ?E = "ok_world 500 ''hi''"
  let ?U = "world (Inl (ConnectionError ''refused'')) []"
  let ?T = "world (Inl (Timeout ''read'')) []"
  let ?p = "abs_path [''work'', ''shot.png'']"
  let ?r = "\<lparr> status_code = 500, body = ''B'' \<rparr>"
  have r: "resolve_workspace_path ?E work_config ''shot.png'' = Inr ?p" by code_simp
  have l: "load_image_b64 ?E work_config ?p = Inr ''iVBORw0KGgo=''" by code_simp
  have ru: "resolve_workspace_path ?U work_config ''shot.png'' = Inr ?p" by code_simp
  have lu: "load_image_b64 ?U work_config ?p = Inr ''iVBORw0KGgo=''" by code_simp
  have rt: "resolve_workspace_path ?T work_config ''shot.png'' = Inr ?p" by code_simp
  have lt: "load_image_b64 ?T work_config ?p = Inr ''iVBORw0KGgo=''" by code_simp
  have post: "requests_post ?E (chat_request work_config ''iVBORw0KGgo='' prompt jm) = Inr ?r" for prompt jm
    by (simp add: ok_world_def world_def)
  have postu: "requests_post ?U (chat_request work_config ''iVBORw0KGgo='' ''What?'' False) =
      Inl (ConnectionError ''refused'')"
    by (simp add: world_def)
  have postt: "requests_post ?T (chat_request work_config ''iVBORw0KGgo='' ''What?'' False) =
      Inl (Timeout ''read'')"
    by (simp add: world_def)
  have c: "fst (ollama_chat_with_image ?E work_config ''iVBORw0KGgo='' prompt jm) = Inl (HTTPError 500 ''B'')"
    for prompt jm
    using error_status_fails_the_call [OF r l, of prompt jm ?r, THEN conjunct1] post [of prompt jm]
    by simp
  have t: "fst (vision_ask ?E work_config ''shot.png'' ''What?'') = Inl (HTTPError 500 ''B'')"
      "fst (vision_ocr ?E work_config ''shot.png'') = Inl (HTTPError 500 ''B'')"
      "fst (vision_ui_spec ?E work_config ''shot.png'') = Inl (HTTPError 500 ''B'')"
    using error_status_fails_the_call [OF r l, of "[]" False ?r "HTTPError 500 ''B''" "''What?''"] c
    by blast+
  have cu: "fst (ollama_chat_with_image ?U work_config ''iVBORw0KGgo='' ''What?'' False) =
      Inl (ConnectionError ''refused'')"
    using error_status_fails_the_call [OF ru lu, of "''What?''" False ?r "ConnectionError ''refused''" "''What?''"] postu
    by blast
  have u: "fst (vision_ask ?U work_config ''shot.png'' ''What?'') = Inl (ConnectionError ''refused'')"
    using error_status_fails_the_call [OF ru lu, of "''What?''" False ?r "ConnectionError ''refused''" "''What?''"] cu
    by blast
  have ct: "fst (ollama_chat_with_image ?T work_config ''iVBORw0KGgo='' ''What?'' False) =
      Inl (Timeout ''read'')"
    using error_status_fails_the_call [OF rt lt, of "''What?''" False ?r "Timeout ''read''" "''What?''"] postt
    by blast
  have tt: "fst (vision_ask ?T work_config ''shot.png'' ''What?'') = Inl (Timeout ''read'')"
    using error_status_fails_the_call [OF rt lt, of "''What?''" False ?r "Timeout ''read''" "''What?''"] ct
    by blast
  from r l post [of "''What?''" False] c [of "''What?''" False] t u tt show ?thesis
    by blast
qed



lemma join_Cons_length: "length (join sep ws) \<le> length (join sep (w # ws))"
  by (cases ws) auto

lemma join_append_length: "length (join sep ys) \<le> length (join sep (xs @ ys))"
proof (induction xs)
  case Nil
  show ?case by simp
next
  case (Cons x xs)
  have "length (join sep (xs @ ys)) \<le> length (join sep (x # xs @ ys))"
    by (rule join_Cons_length)
  with Cons show ?case by simp
qed

lemma join_drop_length: "length (join sep (drop n xs)) \<le> length (join sep xs)"
  using join_append_length [of sep "drop n xs" "take n xs"] by simp

lemma relative_str_differs:
  assumes "anchored b" and "relative_to p b = Inr rel"
  shows "\<not> anchored rel \<and> str_path rel \<noteq> str_path p"
proof -
  from assms have p: "anchored p" and rel: "rel = \<lparr> anchored = False, parts = drop (length (parts b)) (parts p) \<rparr>"
    by (auto simp: relative_to_def split: if_splits)
  show ?thesis
  proof (cases "drop (length (parts b)) (parts p) = []")
    case True
    with p rel show ?thesis by (simp add: str_path_def)
  next
    case False
    have "length (str_path rel) < length (str_path p)"
      using p rel False join_drop_length [of "''/''" "length (parts b)" "parts p"]
      by (simp add: str_path_def)
    with rel show ?thesis by auto
  qed
qed

lemma resolve_relative:
  "resolve_workspace_path E C p = Inr path \<Longrightarrow>
   \<exists>rel. relative_to path (WORKSPACE_ROOT C) = Inr rel"
  using resolve_Inr_D [of E C p path] relative_to_Inr_iff [of path "WORKSPACE_ROOT C"] by blast

lemma vision_ask_Inr:
  "fst (vision_ask E C p q) = Inr res \<Longrightarrow>
   \<exists>path rel answer. resolve_workspace_path E C p = Inr path \<and>
     relative_to path (WORKSPACE_ROOT C) = Inr rel \<and>
     res = [(''model'', PyStr (OLLAMA_MODEL C)), (''image'', PyStr (str_path rel)),
            (''answer'', PyStr answer)]"
  by (auto simp: vision_ask_def split: sum.splits prod.splits)

lemma vision_ocr_Inr:
  "fst (vision_ocr E C p) = Inr res \<Longrightarrow>
   \<exists>path rel txt. resolve_workspace_path E C p = Inr path \<and>
     relative_to path (WORKSPACE_ROOT C) = Inr rel \<and>
     res = [(''model'', PyStr (OLLAMA_MODEL C)), (''image'', PyStr (str_path rel)),
            (''text'', PyStr txt)]"
  by (auto simp: vision_ocr_def split: sum.splits prod.splits)

lemma vision_ui_spec_Inr:
  "fst (vision_ui_spec E C p) = Inr res \<Longrightarrow>
   \<exists>path rel k v. resolve_workspace_path E C p = Inr path \<and>
     relative_to path (WORKSPACE_ROOT C) = Inr rel \<and>
     res = [(''model'', PyStr (OLLAMA_MODEL C)), (''image'', PyStr (str_path rel)), (k, v)]"
  by (auto simp: vision_ui_spec_def ui_spec_try_def ui_spec_except_def
      split: sum.splits prod.splits)

text \<open>
  Claim C9. The root being absolute, every result of \<open>vision_ask\<close>, \<open>vision_ocr\<close> and
  \<open>vision_ui_spec\<close> has under \<open>model\<close> the configured model and under \<open>image\<close> the
  string of the candidate made relative to the root, a path that is not absolute; this
  string is never the string of the absolute candidate.
\<close>

theorem result_names_model_and_relative_image:
  assumes "anchored (WORKSPACE_ROOT C)"
    and "fst (vision_ask E C p q) = Inr res \<or> fst (vision_ocr E C p) = Inr res
         \<or> fst (vision_ui_spec E C p) = Inr res"
  shows "map_of res ''model'' = Some (PyStr (OLLAMA_MODEL C))
       \<and> (\<exists>rel. relative_to (candidate_of E C p) (WORKSPACE_ROOT C) = Inr rel \<and> \<not> anchored rel
              \<and> map_of res ''image'' = Some (PyStr (str_path rel)))
       \<and> map_of res ''image'' \<noteq> Some (PyStr (str_path (candidate_of E C p)))"
proof -
  from assms(2) obtain path rel k v where
    r: "resolve_workspace_path E C p = Inr path" and
    t: "relative_to path (WORKSPACE_ROOT C) = Inr rel" and
    res: "res = [(''model'', PyStr (OLLAMA_MODEL C)), (''image'', PyStr (str_path rel)), (k, v)]"
    using vision_ask_Inr [of E C p q res] vision_ocr_Inr [of E C p res]
      vision_ui_spec_Inr [of E C p res]
    by blast
  from r have c: "path = candidate_of E C p"
    using resolve_Inr_D by blast
  from relative_str_differs [OF assms(1) t]
  have d: "\<not> anchored rel" "str_path rel \<noteq> str_path path" by simp_all
  from res have m: "map_of res ''model'' = Some (PyStr (OLLAMA_MODEL C))"
    and i: "map_of res ''image'' = Some (PyStr (str_path rel))"
    by simp_all
  from m i d t c show ?thesis by auto
qed

theorem result_names_model_and_relative_image_witness:
  "anchored (WORKSPACE_ROOT work_config)
   \<and> fst (vision_ocr (ok_world 200 ''OK'') work_config ''/work/shot.png'') =
       Inr [(''model'', PyStr ''qwen2.5vl:7b''), (''image'', PyStr ''shot.png''), (''text'', PyStr ''OK'')]
   \<and> str_path (candidate_of (ok_world 200 ''OK'') work_config ''/work/shot.png'') = ''/work/shot.png''
   \<and> map_of [(''model'', PyStr ''qwen2.5vl:7b''), (''image'', PyStr ''shot.png''), (''text'', PyStr ''OK'')]
        ''image'' \<noteq> Some (PyStr ''/work/shot.png'')"
proof -
  let ?E = "ok_world 200 ''OK''"
  let ?res = "[(''model'', PyStr ''qwen2.5vl:7b''), (''image'', PyStr ''shot.png''), (''text'', PyStr ''OK'')]"
  have a: "anchored (WORKSPACE_ROOT work_config)" by code_simp
  have b: "fst (vision_ocr ?E work_config ''/work/shot.png'') = Inr ?res" by code_simp
  have c: "str_path (candidate_of ?E work_config ''/work/shot.png'') = ''/work/shot.png''" by code_simp
  have "map_of ?res ''image'' \<noteq> Some (PyStr (str_path (candidate_of ?E work_config ''/work/shot.png'')))"
    using result_names_model_and_relative_image [OF a, of ?E "''/work/shot.png''" "[]" ?res] b
    by blast
  with a b c show ?thesis by simp
qed

text \<open>
  Claim C2, as stated, fails: the reply is decoded by \<open>json.loads\<close> and nothing tests
  the shape of what was decoded. A reply \<open>{"answer": 42}\<close>, which is no
  UiSpecDocument, comes back under \<open>ui\<close>, not under \<open>ui_raw\<close>.
\<close>

theorem wrong_shape_is_returned_as_ui:
  "fst (vision_ui_spec (ok_world 200 ''{\"answer\": 42}'') work_config ''shot.png'') =
     Inr [(''model'', PyStr ''qwen2.5vl:7b''), (''image'', PyStr ''shot.png''),
          (''ui'', PyDict [(''answer'', PyInt 42)])]
   \<and> \<not> is_UiSpecDocument (PyDict [(''answer'', PyInt 42)])"
  by code_simp

text \<open>
  Claim C2, amended. Once the path is resolved, the image loaded and the reply \<open>raw\<close>
  received, \<open>vision_ui_spec\<close> always returns a result: with the three keys \<open>model\<close>,
  \<open>image\<close> and \<open>ui\<close>, the last holding the decoded value, when \<open>json.loads\<close> decodes
  \<open>raw\<close> (whatever the shape of the value); with the three keys \<open>model\<close>, \<open>image\<close> and
  \<open>ui_raw\<close>, the last holding \<open>raw\<close> itself, when \<open>json.loads\<close> raises.
\<close>

theorem ui_spec_decodes_or_falls_back:
  assumes "resolve_workspace_path E C p = Inr path"
    and "load_image_b64 E C path = Inr b64"
    and "fst (ollama_chat_with_image E C b64 ui_spec_prompt True) = Inr raw"
  shows "\<exists>rel. relative_to path (WORKSPACE_ROOT C) = Inr rel
       \<and> (json_loads E raw = Inr v \<longrightarrow>
            fst (vision_ui_spec E C p) =
              Inr [(''model'', PyStr (OLLAMA_MODEL C)), (''image'', PyStr (str_path rel)),
                   (''ui'', v)])
       \<and> (json_loads E raw = Inl ex \<longrightarrow>
            fst (vision_ui_spec E C p) =
              Inr [(''model'', PyStr (OLLAMA_MODEL C)), (''image'', PyStr (str_path rel)),
                   (''ui_raw'', PyStr raw)])"
proof -
  from resolve_relative [OF assms(1)] obtain rel where
    rel: "relative_to path (WORKSPACE_ROOT C) = Inr rel" by blast
  obtain sent where c: "ollama_chat_with_image E C b64 ui_spec_prompt True = (Inr raw, sent)"
    using assms(3) by (cases "ollama_chat_with_image E C b64 ui_spec_prompt True") simp
  have 1: "fst (vision_ui_spec E C p) =
              Inr [(''model'', PyStr (OLLAMA_MODEL C)), (''image'', PyStr (str_path rel)),
                   (''ui'', v)]" if "json_loads E raw = Inr v"
    using that assms(1,2) rel c by (simp add: vision_ui_spec_def ui_spec_try_def)
  have 2: "fst (vision_ui_spec E C p) =
              Inr [(''model'', PyStr (OLLAMA_MODEL C)), (''image'', PyStr (str_path rel)),
                   (''ui_raw'', PyStr raw)]" if "json_loads E raw = Inl ex"
    using that assms(1,2) rel c
    by (simp add: vision_ui_spec_def ui_spec_try_def ui_spec_except_def)
  from rel 1 2 show ?thesis by blast
qed

theorem ui_spec_decodes_or_falls_back_witness:
  "fst (vision_ui_spec (ok_world 200 ''{\"summary\":\"ok\",\"elements\":[]}'') work_config ''shot.png'') =
     Inr [(''model'', PyStr ''qwen2.5vl:7b''), (''image'', PyStr ''shot.png''),
          (''ui'', PyDict [(''summary'', PyStr ''ok''), (''elements'', PyList [])])]
   \<and> is_UiSpecDocument (PyDict [(''summary'', PyStr ''ok''), (''elements'', PyList [])])
   \<and> fst (vision_ui_spec (ok_world 200 ''It is a menu.'') work_config ''shot.png'') =
     Inr [(''model'', PyStr ''qwen2.5vl:7b''), (''image'', PyStr ''shot.png''),
          (''ui_raw'', PyStr ''It is a menu.'')]"
proof -
  let ?doc = "''{\"summary\":\"ok\",\"elements\":[]}''"
  let ?v = "PyDict [(''summary'', PyStr ''ok''), (''elements'', PyList [])]"
  let ?E = "ok_world 200 ?doc"
  let ?F = "ok_world 200 ''It is a menu.''"
  let ?p = "abs_path [''work'', ''shot.png'']"
  let ?rel = "\<lparr> anchored = False, parts = [''shot.png''] \<rparr>"
  have rE: "resolve_workspace_path ?E work_config ''shot.png'' = Inr ?p" by code_simp
  have lE: "load_image_b64 ?E work_config ?p = Inr ''iVBORw0KGgo=''" by code_simp
  have cE: "fst (ollama_chat_with_image ?E work_config ''iVBORw0KGgo='' ui_spec_prompt True) = Inr ?doc"
    by code_simp
  have jE: "json_loads ?E ?doc = Inr ?v" by code_simp
  have rF: "resolve_workspace_path ?F work_config ''shot.png'' = Inr ?p" by code_simp
  have lF: "load_image_b64 ?F work_config ?p = Inr ''iVBORw0KGgo=''" by code_simp
  have cF: "fst (ollama_chat_with_image ?F work_config ''iVBORw0KGgo='' ui_spec_prompt True) =
      Inr ''It is a menu.''"
    by code_simp
  have jF: "json_loads ?F ''It is a menu.'' = Inl (JSONDecodeError ''Expecting value'')" by code_simp
  have rel: "relative_to ?p (WORKSPACE_ROOT work_config) = Inr ?rel" by code_simp
  have s: "str_path ?rel = ''shot.png''" by code_simp
  have m: "OLLAMA_MODEL work_config = ''qwen2.5vl:7b''" by code_simp
  have shape: "is_UiSpecDocument ?v" by code_simp
  have 1: "fst (vision_ui_spec ?E work_config ''shot.png'') =
     Inr [(''model'', PyStr ''qwen2.5vl:7b''), (''image'', PyStr ''shot.png''), (''ui'', ?v)]"
    using ui_spec_decodes_or_falls_back [OF rE lE cE, of ?v undefined] jE rel s m by auto
  have 2: "fst (vision_ui_spec ?F work_config ''shot.png'') =
     Inr [(''model'', PyStr ''qwen2.5vl:7b''), (''image'', PyStr ''shot.png''),
          (''ui_raw'', PyStr ''It is a menu.'')]"
    using ui_spec_decodes_or_falls_back [OF rF lF cF, of undefined "JSONDecodeError ''Expecting value''"]
      jF rel s m by auto
  from 1 shape 2 show ?thesis by blast
qed

section \<open>Image normalisation\<close>

text \<open>
  Rounding to binary64 changes a positive number by at most one part in \<open>2 ^ 53\<close>.
  The scaled side goes through three roundings (the quotient, the conversion of the
  side, the product), hence at most one part in \<open>2 ^ 51\<close>.
\<close>

lemma pow2_powi: "pow2 e = 2 powi e"
  by (simp add: pow2_def power_int_def inverse_eq_divide power_one_over)

lemma pow2_pos: "0 < pow2 e"
  by (simp add: pow2_powi)

lemma pow2_diff: "pow2 (a - b) = pow2 a / pow2 b"
  by (simp add: pow2_powi power_int_diff)

lemma pow2_nat: "0 \<le> e \<Longrightarrow> pow2 e = 2 ^ nat e"
  by (simp add: pow2_def)

lemma round_half_even_error: "\<bar>of_int (round_half_even q) - q\<bar> \<le> 1 / 2"
proof -
  define r where "r = q - of_int \<lfloor>q\<rfloor>"
  have r: "0 \<le> r" "r < 1" unfolding r_def by linarith+
  have q: "q = of_int \<lfloor>q\<rfloor> + r" by (simp add: r_def)
  consider "r < 1 / 2" | "1 / 2 < r" | "r = 1 / 2" by linarith
  then show ?thesis
  proof cases
    case 1
    then have "round_half_even q = \<lfloor>q\<rfloor>"
      by (simp add: round_half_even_def Let_def r_def)
    with 1 r q show ?thesis by simp
  next
    case 2
    then have "round_half_even q = \<lfloor>q\<rfloor> + 1"
      by (simp add: round_half_even_def Let_def r_def)
    with 2 r q show ?thesis by simp
  next
    case 3
    then have "round_half_even q = \<lfloor>q\<rfloor> \<or> round_half_even q = \<lfloor>q\<rfloor> + 1"
      by (simp add: round_half_even_def Let_def r_def)
    with 3 q show ?thesis by auto
  qed
qed

lemma float_exponent_le:
  assumes "0 < x"
  shows "pow2 (float_exponent x) \<le> x"
proof -
  obtain a b where q: "quotient_of x = (a, b)" by (cases "quotient_of x")
  then have x: "x = of_int a / of_int b" and b: "0 < b"
    by (simp_all add: quotient_of_div quotient_of_denom_pos)
  with assms have a: "0 < a" by (simp add: zero_less_divide_iff)
  let ?d = "bitlen a - bitlen b"
  show ?thesis
  proof (cases "pow2 ?d \<le> x")
    case True
    then show ?thesis by (simp add: float_exponent_def q)
  next
    case False
    from bitlen_bounds [OF a] have la: "2 ^ nat (bitlen a - 1) \<le> a" by simp
    from bitlen_bounds [OF b] have lb: "b < 2 ^ nat (bitlen b)" by simp
    have a1: "1 \<le> bitlen a" using a by (simp add: bitlen_alt_def)
    have b0: "0 \<le> bitlen b" by (rule bitlen_nonneg)
    have "(2::rat) ^ nat (bitlen a - 1) \<le> of_int a"
      using la by (metis of_int_le_iff of_int_numeral of_int_power)
    moreover have "(of_int b :: rat) \<le> 2 ^ nat (bitlen b)"
      using lb by (metis less_imp_le of_int_le_iff of_int_numeral of_int_power)
    ultimately have "(2::rat) ^ nat (bitlen a - 1) / 2 ^ nat (bitlen b) \<le> of_int a / of_int b"
      using a b by (intro frac_le) simp_all
    moreover have "pow2 (?d - 1) = 2 ^ nat (bitlen a - 1) / 2 ^ nat (bitlen b)"
    proof -
      have "?d - 1 = (bitlen a - 1) - bitlen b" by simp
      then have "pow2 (?d - 1) = pow2 (bitlen a - 1) / pow2 (bitlen b)"
        by (simp only: pow2_diff)
      then show ?thesis using a1 b0 by (simp add: pow2_nat)
    qed
    ultimately have "pow2 (?d - 1) \<le> x" by (simp add: x)
    with False show ?thesis by (simp add: float_exponent_def q)
  qed
qed

lemma float_round_error:
  assumes "0 < x"
  shows "\<bar>float_round x - x\<bar> \<le> x / 2 ^ 53"
proof -
  let ?e = "float_exponent x"
  let ?u = "pow2 (?e - 52)"
  have u: "0 < ?u" by (rule pow2_pos)
  have fr: "float_round x = of_int (round_half_even (x / ?u)) * ?u"
    using assms by (simp add: float_round_def Let_def)
  have "\<bar>float_round x - x\<bar> = \<bar>of_int (round_half_even (x / ?u)) - x / ?u\<bar> * ?u"
  proof -
    have "float_round x - x = (of_int (round_half_even (x / ?u)) - x / ?u) * ?u"
      using u by (simp add: fr field_simps)
    then show ?thesis using u by (simp add: abs_mult)
  qed
  also have "\<dots> \<le> (1 / 2) * ?u"
    using u round_half_even_error [of "x / ?u"] by (intro mult_right_mono) simp_all
  also have "\<dots> = pow2 ?e / 2 ^ 53"
  proof -
    have "?u = pow2 ?e / pow2 52" by (rule pow2_diff)
    then show ?thesis by (simp add: pow2_nat)
  qed
  also have "\<dots> \<le> x / 2 ^ 53"
    using float_exponent_le [OF assms] by (simp add: divide_right_mono)
  finally show ?thesis .
qed

lemma rel_error_bounds:
  fixes x y k :: rat
  assumes "\<bar>y - x\<bar> \<le> x / k"
  shows "x * (1 - 1 / k) \<le> y" and "y \<le> x * (1 + 1 / k)"
proof -
  from assms have a: "y - x \<le> x / k" "x - y \<le> x / k" by (simp_all add: abs_le_iff)
  have e: "x * (1 - 1 / k) = x - x / k" "x * (1 + 1 / k) = x + x / k"
    by (simp_all add: algebra_simps)
  show "x * (1 - 1 / k) \<le> y" using a(2) unfolding e(1) by linarith
  show "y \<le> x * (1 + 1 / k)" using a(1) unfolding e(2) by linarith
qed

lemma rel_error_abs:
  fixes x y d :: rat
  assumes "x - d \<le> y" and "y \<le> x + d"
  shows "\<bar>y - x\<bar> \<le> d"
  using assms by (simp add: abs_le_iff)

lemma float_round_pos:
  assumes "0 < x"
  shows "0 < float_round x"
proof -
  have "0 < x * (1 - 1 / 2 ^ 53)" using assms by simp
  with rel_error_bounds(1) [OF float_round_error [OF assms]] show ?thesis by linarith
qed

lemma three_roundings:
  "(1 + 1 / 2 ^ 53) * (1 + 1 / 2 ^ 53) * (1 + 1 / 2 ^ 53) \<le> (1 + 1 / 2 ^ 51 :: rat)"
  "(1 - 1 / 2 ^ 51 :: rat) \<le> (1 - 1 / 2 ^ 53) * (1 - 1 / 2 ^ 53) * (1 - 1 / 2 ^ 53)"
  by simp_all

lemma int_mul_float_error:
  assumes w: "0 < w" and a: "0 < A"
  shows "\<bar>int_mul_float w (float_round A) - of_int w * A\<bar> \<le> of_int w * A / 2 ^ 51"
proof -
  define k :: rat where "k = 2 ^ 53"
  define lo hi :: rat where "lo = 1 - 1 / k" and "hi = 1 + 1 / k"
  define W :: rat where "W = of_int w"
  define s wf where "s = float_round A" and "wf = float_round W"
  have W: "0 < W" using w by (simp add: W_def)
  have lo: "0 < lo" and hi: "0 < hi" by (simp_all add: lo_def hi_def k_def)
  have s: "0 < s" and wf: "0 < wf"
    unfolding s_def wf_def by (rule float_round_pos [OF a], rule float_round_pos [OF W])
  have sb: "A * lo \<le> s" "s \<le> A * hi"
    unfolding s_def lo_def hi_def k_def
    by (rule rel_error_bounds [OF float_round_error [OF a]])+
  have wb: "W * lo \<le> wf" "wf \<le> W * hi"
    unfolding wf_def lo_def hi_def k_def
    by (rule rel_error_bounds [OF float_round_error [OF W]])+
  have P: "0 < wf * s" using s wf by simp
  have yb: "(wf * s) * lo \<le> float_round (wf * s)" "float_round (wf * s) \<le> (wf * s) * hi"
    unfolding lo_def hi_def k_def
    by (rule rel_error_bounds [OF float_round_error [OF P]])+
  have up: "wf * s \<le> (W * hi) * (A * hi)"
    using wb(2) sb(2) s wf by (intro mult_mono) simp_all
  have dn: "(W * lo) * (A * lo) \<le> wf * s"
    using wb(1) sb(1) W a lo s wf by (intro mult_mono) simp_all
  have y: "int_mul_float w (float_round A) = float_round (wf * s)"
    by (simp add: int_mul_float_def s_def wf_def W_def)
  have WA: "0 \<le> W * A" using W a by simp
  have "float_round (wf * s) \<le> (wf * s) * hi" by (rule yb(2))
  also have "\<dots> \<le> ((W * hi) * (A * hi)) * hi"
    using up hi by (intro mult_right_mono) simp_all
  also have "\<dots> = (W * A) * (hi * hi * hi)" by (simp add: algebra_simps)
  also have "\<dots> \<le> (W * A) * (1 + 1 / 2 ^ 51)"
    using WA three_roundings(1) unfolding hi_def k_def by (rule mult_left_mono [rotated])
  also have "\<dots> = W * A + W * A / 2 ^ 51" by (simp add: algebra_simps)
  finally have 1: "float_round (wf * s) \<le> W * A + W * A / 2 ^ 51" .
  have "W * A - W * A / 2 ^ 51 = (W * A) * (1 - 1 / 2 ^ 51)" by (simp add: algebra_simps)
  also have "\<dots> \<le> (W * A) * (lo * lo * lo)"
    using WA three_roundings(2) unfolding lo_def k_def by (rule mult_left_mono [rotated])
  also have "\<dots> = ((W * lo) * (A * lo)) * lo" by (simp add: algebra_simps)
  also have "\<dots> \<le> (wf * s) * lo"
    using dn lo by (intro mult_right_mono) simp_all
  also have "\<dots> \<le> float_round (wf * s)" by (rule yb(1))
  finally have 2: "W * A - W * A / 2 ^ 51 \<le> float_round (wf * s)" .
  from rel_error_abs [OF 2 1] show ?thesis by (simp only: y W_def)
qed

lemma abs_le_bounds:
  fixes x y e :: rat
  assumes "\<bar>y - x\<bar> \<le> e"
  shows "x - e \<le> y" and "y \<le> x + e"
  using assms by (auto simp: abs_le_iff)

lemma abs_less_from_bounds:
  fixes x y e :: rat
  assumes "x - e < y" and "y < x + e"
  shows "\<bar>y - x\<bar> < e"
  using assms by (auto simp: abs_less_iff)

lemma scaled_side:
  fixes d edge M :: int
  assumes d: "0 < d" "d \<le> edge" and M: "0 < M" "M < 2 ^ 31"
  defines "v \<equiv> of_int d * (of_int M / of_int edge) :: rat"
  defines "d' \<equiv> py_int (int_mul_float d (float_round (of_int M / of_int edge)))"
  shows "v - (1 + 1 / 2 ^ 20) < of_int d'" and "of_int d' < v + (1 + 1 / 2 ^ 20)"
    and "d' \<le> M" and "d = edge \<Longrightarrow> M - 1 \<le> d'"
proof -
  define y where "y = int_mul_float d (float_round (of_int M / of_int edge))"
  define c :: rat where "c = 1 / 2 ^ 20"
  define err :: rat where "err = v / 2 ^ 51"
  have c: "0 < c" "c < 1" by (simp_all add: c_def)
  have edge: "0 < edge" using d by simp
  have A: "(0::rat) < of_int M / of_int edge" using M edge by simp
  have v0: "0 < v" unfolding v_def using d(1) A by (intro mult_pos_pos) simp_all
  have "v = of_int M * (of_int d / of_int edge)" by (simp add: v_def)
  also have "\<dots> \<le> of_int M * 1"
    using d edge M by (intro mult_left_mono) simp_all
  finally have vM: "v \<le> of_int M" by simp
  have "of_int M < (2 ^ 31 :: rat)"
    using M(2) by (metis of_int_less_iff of_int_numeral of_int_power)
  with vM have "v < 2 ^ 31" by simp
  then have "v / 2 ^ 51 < 2 ^ 31 / 2 ^ 51" by (rule divide_strict_right_mono) simp
  also have "(2 ^ 31 / 2 ^ 51 :: rat) = c" by (simp add: c_def)
  finally have small: "err < c" by (simp only: err_def)
  have e0: "0 \<le> err" "err \<le> v" using v0 by (simp_all add: err_def field_simps)
  have "\<bar>y - v\<bar> \<le> err"
    unfolding y_def v_def err_def by (rule int_mul_float_error [OF d(1) A])
  note yb = abs_le_bounds [OF this]
  have y0: "0 \<le> y" using yb(1) e0 by linarith
  have d': "d' = \<lfloor>y\<rfloor>" using y0 by (simp add: d'_def y_def py_int_def)
  have fl: "of_int d' \<le> y" "y < of_int d' + 1" unfolding d' by linarith+
  have 1: "v - (1 + c) < of_int d'" using fl(2) yb(1) small by linarith
  have 2: "of_int d' < v + (1 + c)" using fl(1) yb(2) small c by linarith
  from 1 show "v - (1 + 1 / 2 ^ 20) < of_int d'" by (simp only: c_def)
  from 2 show "of_int d' < v + (1 + 1 / 2 ^ 20)" by (simp only: c_def)
  have "(of_int d' :: rat) < of_int M + 1" using fl(1) yb(2) small c vM by linarith
  then have "(of_int d' :: rat) < of_int (M + 1)" by simp
  then have "d' < M + 1" by (simp only: of_int_less_iff)
  then show "d' \<le> M" by simp
  show "M - 1 \<le> d'" if "d = edge"
  proof -
    from that edge have "v = of_int M" by (simp add: v_def)
    with yb(1) small c have "of_int M - 1 < y" by linarith
    then have "(of_int (M - 1) :: rat) < y" by simp
    then have "M - 1 \<le> \<lfloor>y\<rfloor>" by (simp only: le_floor_iff)
    then show ?thesis by (simp only: d')
  qed
qed

lemma scaled_size_bounds:
  fixes w h M :: int
  assumes "0 < w" and "0 < h" and "0 < M" and "M < max w h" and "max w h < 2 ^ 31"
  shows "\<exists>w' h'. scaled_size M (w, h) = Inr (w', h')
           \<and> (max w' h' = M \<or> max w' h' = M - 1)
           \<and> \<bar>of_int w' - of_int w * (of_int M / of_int (max w h))\<bar> < (1 + 1 / 2 ^ 20 :: rat)
           \<and> \<bar>of_int h' - of_int h * (of_int M / of_int (max w h))\<bar> < (1 + 1 / 2 ^ 20 :: rat)"
proof -
  let ?edge = "max w h"
  let ?s = "float_round (of_int M / of_int ?edge)"
  let ?w' = "py_int (int_mul_float w ?s)" and ?h' = "py_int (int_mul_float h ?s)"
  have M: "M < 2 ^ 31" by (rule less_trans [OF assms(4) assms(5)])
  have e0: "?edge \<noteq> 0" using assms(1) by simp
  have sz: "scaled_size M (w, h) = Inr (?w', ?h')"
    using e0 by (simp add: scaled_size_def int_truediv_def Let_def)
  note W = scaled_side [OF assms(1) max.cobounded1 [of w h] assms(3) M]
  note H = scaled_side [OF assms(2) max.cobounded2 [of h w] assms(3) M]
  have mx: "max ?w' ?h' = M \<or> max ?w' ?h' = M - 1"
  proof (cases "w \<le> h")
    case True
    then have "h = ?edge" by simp
    from H(4) [OF this] W(3) H(3) show ?thesis by linarith
  next
    case False
    then have "w = ?edge" by simp
    from W(4) [OF this] W(3) H(3) show ?thesis by linarith
  qed
  have bw: "\<bar>of_int ?w' - of_int w * (of_int M / of_int ?edge)\<bar> < (1 + 1 / 2 ^ 20 :: rat)"
    by (rule abs_less_from_bounds [OF W(1,2)])
  have bh: "\<bar>of_int ?h' - of_int h * (of_int M / of_int ?edge)\<bar> < (1 + 1 / 2 ^ 20 :: rat)"
    by (rule abs_less_from_bounds [OF H(1,2)])
  from sz mx bw bh show ?thesis by blast
qed

lemma scaled_size_example: "scaled_size 1600 (3200, 1800) = Inr (1600, 900)"
  by code_simp

text \<open>
  What the downscaling step does to the dimensions, for every image whose sides are
  positive and below \<open>2 ^ 31\<close> and every positive maximum: nothing when the longest
  edge is at most the maximum; otherwise it asks \<open>resize\<close> for a size whose longest
  side is the maximum or one pixel less, each side within one pixel (and \<open>2 ^ - 20\<close>)
  of the exact quotient. What \<open>resize\<close> answers is another matter: it refuses a side
  of \<open>0\<close>.
\<close>

lemma downscale_dimensions:
  assumes "0 < width img" and "0 < height img"
    and "max (width img) (height img) < 2 ^ 31" and "0 < MAX_IMAGE_EDGE C"
  shows "(max (width img) (height img) \<le> MAX_IMAGE_EDGE C \<longrightarrow> downscale E C img = Inr img)
       \<and> (MAX_IMAGE_EDGE C < max (width img) (height img) \<longrightarrow>
            (\<exists>w' h'. downscale E C img = resize E img (w', h')
               \<and> (max w' h' = MAX_IMAGE_EDGE C \<or> max w' h' = MAX_IMAGE_EDGE C - 1)
               \<and> \<bar>of_int w' - of_int (width img) *
                     (of_int (MAX_IMAGE_EDGE C) / of_int (max (width img) (height img)))\<bar>
                   < (1 + 1 / 2 ^ 20 :: rat)
               \<and> \<bar>of_int h' - of_int (height img) *
                     (of_int (MAX_IMAGE_EDGE C) / of_int (max (width img) (height img)))\<bar>
                   < (1 + 1 / 2 ^ 20 :: rat)))"
proof (intro conjI impI)
  assume "max (width img) (height img) \<le> MAX_IMAGE_EDGE C"
  then have "\<not> MAX_IMAGE_EDGE C < max (width img) (height img)"
    by (rule leD)
  then show "downscale E C img = Inr img"
    by (simp only: downscale_def Let_def if_False)
next
  assume big: "MAX_IMAGE_EDGE C < max (width img) (height img)"
  from scaled_size_bounds [OF assms(1,2,4) big assms(3)] obtain w' h' where
    sz: "scaled_size (MAX_IMAGE_EDGE C) (width img, height img) = Inr (w', h')" and
    b: "max w' h' = MAX_IMAGE_EDGE C \<or> max w' h' = MAX_IMAGE_EDGE C - 1"
      "\<bar>of_int w' - of_int (width img) *
          (of_int (MAX_IMAGE_EDGE C) / of_int (max (width img) (height img)))\<bar>
        < (1 + 1 / 2 ^ 20 :: rat)"
      "\<bar>of_int h' - of_int (height img) *
          (of_int (MAX_IMAGE_EDGE C) / of_int (max (width img) (height img)))\<bar>
        < (1 + 1 / 2 ^ 20 :: rat)"
    by blast
  have "downscale E C img = resize E img (w', h')"
    using big sz by (simp add: downscale_def Let_def)
  with b show "\<exists>w' h'. downscale E C img = resize E img (w', h')
               \<and> (max w' h' = MAX_IMAGE_EDGE C \<or> max w' h' = MAX_IMAGE_EDGE C - 1)
               \<and> \<bar>of_int w' - of_int (width img) *
                     (of_int (MAX_IMAGE_EDGE C) / of_int (max (width img) (height img)))\<bar>
                   < (1 + 1 / 2 ^ 20 :: rat)
               \<and> \<bar>of_int h' - of_int (height img) *
                     (of_int (MAX_IMAGE_EDGE C) / of_int (max (width img) (height img)))\<bar>
                   < (1 + 1 / 2 ^ 20 :: rat)"
    by blast
qed

lemma scaled_size_tall: "scaled_size 1600 (1, 2000) = Inr (0, 1600)"
  by code_simp

lemma scaled_side_zero:
  fixes d edge M :: int
  assumes d: "0 < d" and M: "0 < M" and e: "edge < 2 ^ 31" and s: "d * M < edge"
  shows "py_int (int_mul_float d (float_round (of_int M / of_int edge))) = 0"
proof -
  define y where "y = int_mul_float d (float_round (of_int M / of_int edge))"
  define v :: rat where "v = of_int d * (of_int M / of_int edge)"
  define r :: rat where "r = 1 / of_int edge"
  define err :: rat where "err = v / 2 ^ 51"
  have "0 < d * M" using d M by simp
  with s have edge: "0 < edge" by simp
  have A: "(0::rat) < of_int M / of_int edge" using M edge by simp
  have v0: "0 < v" unfolding v_def using d A by (intro mult_pos_pos) simp_all
  have "d * M \<le> edge - 1" using s by simp
  then have "(of_int (d * M) :: rat) \<le> of_int (edge - 1)" by (simp only: of_int_le_iff)
  then have "(of_int (d * M) :: rat) / of_int edge \<le> of_int (edge - 1) / of_int edge"
    using edge by (intro divide_right_mono) simp_all
  also have "(of_int (edge - 1) :: rat) / of_int edge = 1 - r"
    using edge by (simp add: r_def field_simps)
  finally have v1: "v \<le> 1 - r" by (simp add: v_def)
  have "(of_int edge :: rat) < 2 ^ 31"
    using e by (metis of_int_less_iff of_int_numeral of_int_power)
  then have "1 / (2 ^ 31 :: rat) < 1 / of_int edge"
    using edge by (intro divide_strict_left_mono) simp_all
  then have r: "1 / 2 ^ 31 < r" by (simp only: r_def)
  have r0: "0 < r" using edge by (simp add: r_def)
  have "v < 1" using v1 r0 by linarith
  then have "v / 2 ^ 51 < 1 / 2 ^ 51" by (intro divide_strict_right_mono) simp_all
  also have "(1 / 2 ^ 51 :: rat) < 1 / 2 ^ 31" by simp
  finally have "err < 1 / 2 ^ 31" by (simp only: err_def)
  with r have small: "err < r" by linarith
  have e0: "err \<le> v" using v0 by (simp add: err_def field_simps)
  have "\<bar>y - v\<bar> \<le> err"
    unfolding y_def v_def err_def by (rule int_mul_float_error [OF d A])
  note yb = abs_le_bounds [OF this]
  have y0: "0 \<le> y" using yb(1) e0 by linarith
  have y1: "y < 1" using yb(2) small v1 by linarith
  from y0 y1 have "\<lfloor>y\<rfloor> = 0" by (simp add: floor_eq_iff)
  with y0 show ?thesis by (simp add: py_int_def y_def)
qed

text \<open>
  Claim C10. For every decodable image with positive sides below \<open>2 ^ 31\<close> that is
  longer than the (positive) maximum and so narrow that shorter side times maximum is
  below the longer side, the size handed to \<open>resize\<close> has a side of \<open>0\<close>, and
  \<open>_load_image_b64\<close> returns no image: it raises the \<open>ValueError\<close> of \<open>resize\<close>, which is
  no decoding error. The witness is a 1 by 2000 image with a maximum of 1600, for which
  the size is \<open>(0, 1600)\<close>.
\<close>

theorem zero_target_side:
  assumes "image_open_rgb E path = Inr img"
    and "0 < width img" and "0 < height img"
    and "max (width img) (height img) < 2 ^ 31"
    and "0 < MAX_IMAGE_EDGE C"
    and "MAX_IMAGE_EDGE C < max (width img) (height img)"
    and "min (width img) (height img) * MAX_IMAGE_EDGE C < max (width img) (height img)"
  shows "\<exists>w' h'. scaled_size (MAX_IMAGE_EDGE C) (width img, height img) = Inr (w', h')
            \<and> (w' = 0 \<or> h' = 0)
            \<and> load_image_b64 E C path = Inl (ValueError ''height and width must be > 0'')"
proof -
  let ?w = "width img" and ?h = "height img" and ?M = "MAX_IMAGE_EDGE C"
  let ?edge = "max ?w ?h"
  let ?s = "float_round (of_int ?M / of_int ?edge)"
  let ?w' = "py_int (int_mul_float ?w ?s)" and ?h' = "py_int (int_mul_float ?h ?s)"
  have e0: "?edge \<noteq> 0" using assms(2) by simp
  have sz: "scaled_size ?M (?w, ?h) = Inr (?w', ?h')"
    using e0 by (simp add: scaled_size_def int_truediv_def Let_def)
  have z: "?w' = 0 \<or> ?h' = 0"
  proof (cases "?w \<le> ?h")
    case True
    then have "?w * ?M < ?edge" using assms(7) by (simp add: min_def)
    from scaled_side_zero [OF assms(2) assms(5) assms(4) this] show ?thesis by simp
  next
    case False
    then have "?h * ?M < ?edge" using assms(7) by (simp add: min_def)
    from scaled_side_zero [OF assms(3) assms(5) assms(4) this] show ?thesis by simp
  qed
  then have "resize E img (?w', ?h') = Inl (ValueError ''height and width must be > 0'')"
    by (auto simp: resize_def)
  then have "downscale E C img = Inl (ValueError ''height and width must be > 0'')"
    using assms(6) sz by (simp add: downscale_def Let_def)
  then have "load_image_b64 E C path = Inl (ValueError ''height and width must be > 0'')"
    using assms(1) by (simp add: load_image_b64_def)
  with sz z show ?thesis by blast
qed

theorem zero_target_side_witness:
  "image_open_rgb (world (Inl (Timeout [])) []) (abs_path [''work'', ''tall.png'']) =
     Inr \<lparr> width = 1, height = 2000, pixels = [] \<rparr>
   \<and> MAX_IMAGE_EDGE work_config = 1600
   \<and> scaled_size 1600 (1, 2000) = Inr (0, 1600)
   \<and> load_image_b64 (world (Inl (Timeout [])) []) work_config (abs_path [''work'', ''tall.png'']) =
       Inl (ValueError ''height and width must be > 0'')"
proof -
  let ?E = "world (Inl (Timeout [])) []"
  let ?img = "\<lparr> width = 1, height = 2000, pixels = [] \<rparr>"
  have a: "image_open_rgb ?E (abs_path [''work'', ''tall.png'']) = Inr ?img" by code_simp
  have m: "MAX_IMAGE_EDGE work_config = 1600" by code_simp
  have "\<exists>w' h'. scaled_size (MAX_IMAGE_EDGE work_config) (width ?img, height ?img) = Inr (w', h')
            \<and> (w' = 0 \<or> h' = 0)
            \<and> load_image_b64 ?E work_config (abs_path [''work'', ''tall.png'']) =
                Inl (ValueError ''height and width must be > 0'')"
    by (rule zero_target_side [OF a]) (simp_all add: m)
  then have "load_image_b64 ?E work_config (abs_path [''work'', ''tall.png'']) =
                Inl (ValueError ''height and width must be > 0'')"
    by blast
  with a m scaled_size_tall show ?thesis by simp
qed

text \<open>
  Claim C4 at a 1 by 2000 image with a maximum of 1600: the file is inside the root
  and decodes, the downscaling step raises, and \<open>vision_ask\<close> fails before any request
  is posted. No output with a longest edge of 1600 is produced.
\<close>

theorem tall_image_is_not_normalized:
  "resolve_workspace_path (ok_world 200 ''hi'') work_config ''tall.png'' =
     Inr (abs_path [''work'', ''tall.png''])
   \<and> image_open_rgb (ok_world 200 ''hi'') (abs_path [''work'', ''tall.png'']) =
     Inr \<lparr> width = 1, height = 2000, pixels = [] \<rparr>
   \<and> downscale (ok_world 200 ''hi'') work_config \<lparr> width = 1, height = 2000, pixels = [] \<rparr> =
     Inl (ValueError ''height and width must be > 0'')
   \<and> vision_ask (ok_world 200 ''hi'') work_config ''tall.png'' ''What?'' =
     (Inl (ValueError ''height and width must be > 0''), [])"
  by code_simp

end
